theory Spec2Isabelle
  imports Main "HOL-Library.Char_ord" "HOL-Library.List_Lexorder" "HOL-Library.AList"
begin

text \<open>
  calendar-intel comes in two variants of one agent. The first variant
  (\<open>src/unnamed/part_000\<close>) has the handlers business-days, add-business-days,
  next-holiday and compare-countries, modelled here as \<open>business_days\<close>,
  \<open>add_business_days\<close>, \<open>next_holiday\<close> and \<open>compare_countries\<close>. The second
  (\<open>src/src/index.ts\<close>, \<open>src/index.ts\<close> below) has its own business-days,
  \<open>business_days_index\<close>, and the helper \<open>getISOWeek\<close>. Both share \<open>isWeekend\<close> and
  \<open>formatDate\<close>.
\<close>

section \<open>ECMAScript dates\<close>

text \<open>
  The handlers of calendar-intel compute on JavaScript \<open>Date\<close> objects. A valid
  \<open>Date\<close> is its time value, the number of milliseconds since 1970-01-01T00:00:00Z;
  an Invalid Date (time value NaN) is \<open>None\<close> where a handler can meet one.

  Two conventions of the model:
  \<^item> the host's local time zone is UTC, so that \<open>getDay\<close>, \<open>getDate\<close>, \<open>setDate\<close> and
    \<open>getFullYear\<close> read the same calendar fields as their UTC counterparts and as
    \<open>toISOString\<close> (the source mixes the two families freely);
  \<^item> time values are unbounded integers: the limit of 8.64e15 ms of ECMAScript is far
    from every date a four-digit year can name.
\<close>

type_synonym Date = int

definition msPerDay :: int where
  "msPerDay = 86400000"

definition Day :: "Date \<Rightarrow> int" where
  "Day t = t div msPerDay"

definition TimeWithinDay :: "Date \<Rightarrow> int" where
  "TimeWithinDay t = t mod msPerDay"

text \<open>
  The Gregorian calendar, counted in eras of 400 years (146097 days) that start on
  March 1st: \<open>year_in_era\<close> finds the year of the era and the day of that year,
  \<open>month_in_year\<close> the month (March is 0) and the day of the month.
\<close>

definition year_in_era :: "int \<Rightarrow> int \<times> int" where
  "year_in_era doe =
     (let cent = min 3 (doe div 36524);
          doc = doe - 36524 * cent;
          quad = doc div 1461;
          doq = doc mod 1461;
          yoq = min 3 (doq div 365)
      in (100 * cent + 4 * quad + yoq, doq - 365 * yoq))"

definition month_in_year :: "int \<Rightarrow> int \<times> int" where
  "month_in_year doy =
     (let mp = (5 * doy + 2) div 153
      in (mp, doy - (153 * mp + 2) div 5 + 1))"

definition civil_from_days :: "int \<Rightarrow> int \<times> int \<times> int" where
  "civil_from_days z =
     (let era = (z + 719468) div 146097;
          (yoe, doy) = year_in_era ((z + 719468) mod 146097);
          (mp, d) = month_in_year doy;
          m = (if mp < 10 then mp + 3 else mp - 9);
          y = 400 * era + yoe
      in (if m \<le> 2 then y + 1 else y, m, d))"

definition days_from_civil :: "int \<Rightarrow> int \<Rightarrow> int \<Rightarrow> int" where
  "days_from_civil y m d =
     (let y' = (if m \<le> 2 then y - 1 else y);
          era = y' div 400;
          yoe = y' mod 400;
          mp = (if m > 2 then m - 3 else m + 9);
          doy = (153 * mp + 2) div 5 + d - 1;
          doe = 365 * yoe + yoe div 4 - yoe div 100 + doy
      in era * 146097 + doe - 719468)"

text \<open>\<open>MakeDay\<close> of ECMA-262, with a month index from 0 that may overflow into the years.\<close>

definition MakeDay :: "int \<Rightarrow> int \<Rightarrow> int \<Rightarrow> int" where
  "MakeDay y m0 dt = days_from_civil (y + m0 div 12) (m0 mod 12 + 1) 1 + dt - 1"

definition Date_UTC :: "int \<Rightarrow> int \<Rightarrow> int \<Rightarrow> Date" where
  "Date_UTC y m0 dt =
     MakeDay (if 0 \<le> y \<and> y \<le> 99 then 1900 + y else y) m0 dt * msPerDay"

definition getTime :: "Date \<Rightarrow> int" where
  "getTime t = t"

definition getUTCFullYear :: "Date \<Rightarrow> int" where
  "getUTCFullYear t = (case civil_from_days (Day t) of (y, m, d) \<Rightarrow> y)"

definition getUTCMonth :: "Date \<Rightarrow> int" where
  "getUTCMonth t = (case civil_from_days (Day t) of (y, m, d) \<Rightarrow> m - 1)"

definition getUTCDate :: "Date \<Rightarrow> int" where
  "getUTCDate t = (case civil_from_days (Day t) of (y, m, d) \<Rightarrow> d)"

definition getUTCDay :: "Date \<Rightarrow> int" where
  "getUTCDay t = (Day t + 4) mod 7"

definition setUTCDate :: "Date \<Rightarrow> int \<Rightarrow> Date" where
  "setUTCDate t dt =
     MakeDay (getUTCFullYear t) (getUTCMonth t) dt * msPerDay + TimeWithinDay t"

text \<open>The local-time methods, on a host whose time zone is UTC.\<close>

definition getFullYear :: "Date \<Rightarrow> int" where
  "getFullYear t = getUTCFullYear t"

definition getMonth :: "Date \<Rightarrow> int" where
  "getMonth t = getUTCMonth t"

definition getDate :: "Date \<Rightarrow> int" where
  "getDate t = getUTCDate t"

definition getDay :: "Date \<Rightarrow> int" where
  "getDay t = getUTCDay t"

definition setDate :: "Date \<Rightarrow> int \<Rightarrow> Date" where
  "setDate t dt = setUTCDate t dt"

text \<open>\<open>Math.ceil (a / b)\<close> on integers, for a positive \<open>b\<close>.\<close>

definition ceil_div :: "int \<Rightarrow> int \<Rightarrow> int" where
  "ceil_div a b = - ((- a) div b)"

subsection \<open>Date strings\<close>

definition digit_char :: "nat \<Rightarrow> char" where
  "digit_char n = char_of (48 + n)"

definition digit_val :: "char \<Rightarrow> nat" where
  "digit_val c = of_char c - 48"

definition is_digit :: "char \<Rightarrow> bool" where
  "is_digit c = (CHR ''0'' \<le> c \<and> c \<le> CHR ''9'')"

fun dec :: "nat \<Rightarrow> string" where
  "dec n = (if n < 10 then [digit_char n] else dec (n div 10) @ [digit_char (n mod 10)])"

declare dec.simps [simp del]

definition undec :: "string \<Rightarrow> nat" where
  "undec s = foldl (\<lambda>a c. 10 * a + digit_val c) 0 s"

definition padStart :: "nat \<Rightarrow> char \<Rightarrow> string \<Rightarrow> string" where
  "padStart k c s = replicate (k - length s) c @ s"

text \<open>
  The year of \<open>toISOString\<close>: four digits from 0 to 9999, and the expanded form, a sign
  and six digits, outside.
\<close>

definition year_string :: "int \<Rightarrow> string" where
  "year_string y =
     (if 0 \<le> y \<and> y \<le> 9999 then padStart 4 (CHR ''0'') (dec (nat y))
      else (if y < 0 then CHR ''-'' else CHR ''+'') # padStart 6 (CHR ''0'') (dec (nat \<bar>y\<bar>)))"

text \<open>
  \<open>formatDate\<close> is \<open>date.toISOString().split('T')[0]\<close>: the part of the ISO string before
  the \<open>T\<close>, which is the UTC calendar date.
\<close>

definition formatDate :: "Date \<Rightarrow> string" where
  "formatDate t =
     (case civil_from_days (Day t) of
        (y, m, d) \<Rightarrow>
          year_string y @ ''-'' @ padStart 2 (CHR ''0'') (dec (nat m))
            @ ''-'' @ padStart 2 (CHR ''0'') (dec (nat d)))"

definition isLeapYear :: "int \<Rightarrow> bool" where
  "isLeapYear y = ((y mod 4 = 0 \<and> y mod 100 \<noteq> 0) \<or> y mod 400 = 0)"

definition daysInMonth :: "int \<Rightarrow> int \<Rightarrow> int" where
  "daysInMonth y m =
     (if m = 2 then (if isLeapYear y then 29 else 28)
      else if m = 4 \<or> m = 6 \<or> m = 9 \<or> m = 11 then 30 else 31)"

text \<open>
  \<open>new Date(s)\<close> for a date-only string \<open>YYYY-MM-DD\<close>, and \<open>parseDate\<close>, which is
  \<open>new Date(dateStr + 'T00:00:00Z')\<close>: both are midnight UTC of the day named. The
  model knows this form only, the one both request schemas ask for (the first variant
  by a regular expression, \<open>src/index.ts\<close> in its description): a month outside 1 to
  12 or a day the month does not have gives an Invalid Date, and so does, here, a string
  of any other shape (an engine parses some of them, a date with a time for instance).
  Engines differ on a day such as February 30th. No theorem below depends on either
  choice: their hypotheses ask for a date that parses.
\<close>

definition new_Date :: "string \<Rightarrow> Date option" where
  "new_Date s =
     (if length s = 10 \<and> s ! 4 = CHR ''-'' \<and> s ! 7 = CHR ''-''
         \<and> list_all is_digit (take 4 s) \<and> list_all is_digit (take 2 (drop 5 s))
         \<and> list_all is_digit (drop 8 s)
      then (let y = int (undec (take 4 s));
                m = int (undec (take 2 (drop 5 s)));
                d = int (undec (drop 8 s))
            in if 1 \<le> m \<and> m \<le> 12 \<and> 1 \<le> d \<and> d \<le> daysInMonth y m
               then Some (days_from_civil y m d * msPerDay) else None)
      else None)"

definition parseDate :: "string \<Rightarrow> Date option" where
  "parseDate dateStr = new_Date dateStr"

text \<open>
  \<open>parseInt(s.split('-')[0])\<close>: the decimal digits that open the string, NaN
  (\<open>None\<close>) when there is none. The request schema lets only strings through that
  open with four digits.
\<close>

definition parseInt_year :: "string \<Rightarrow> int option" where
  "parseInt_year s =
     (let ds = takeWhile is_digit (takeWhile (\<lambda>c. c \<noteq> CHR ''-'') s)
      in if ds = [] then None else Some (int (undec ds)))"

text \<open>\<open>toUpperCase\<close>, on the letters of ASCII that country codes are written in.\<close>

definition toUpperCase :: "string \<Rightarrow> string" where
  "toUpperCase s =
     map (\<lambda>c. if CHR ''a'' \<le> c \<and> c \<le> CHR ''z'' then char_of (of_char c - (32::nat)) else c) s"

subsection \<open>Helpers of the source\<close>

definition isWeekend :: "Date \<Rightarrow> bool" where
  "isWeekend date = (let day = getDay date in day = 0 \<or> day = 6)"

definition getISOWeek :: "Date \<Rightarrow> int" where
  "getISOWeek date =
     (let d = Date_UTC (getFullYear date) (getMonth date) (getDate date);
          dayNum = (if getUTCDay d = 0 then 7 else getUTCDay d);
          d' = setUTCDate d (getUTCDate d + 4 - dayNum);
          yearStart = Date_UTC (getUTCFullYear d') 0 1
      in ceil_div (getTime d' - getTime yearStart + msPerDay) (7 * msPerDay))"

section \<open>The holiday provider\<close>

text \<open>
  A holiday as Nager.Date returns it. The provider is a parameter of every handler: for a
  country code and a year it answers with the list of holidays, or fails (\<open>None\<close>: the
  response is not ok, and \<open>fetchJSON\<close> throws).
\<close>

record HolidayCore =
  date :: string
  name :: string
  localName :: string
  types :: "string list"

record HolidayRecord = HolidayCore +
  global :: bool

datatype error = ProviderError | RangeError | TypeError

type_synonym provider = "string \<Rightarrow> int \<Rightarrow> HolidayRecord list option"

definition getHolidays :: "provider \<Rightarrow> string \<Rightarrow> int \<Rightarrow> error + HolidayRecord list" where
  "getHolidays nager cc y =
     (case nager cc y of None \<Rightarrow> Inl ProviderError | Some hs \<Rightarrow> Inr hs)"

section \<open>Requests and responses\<close>

text \<open>
  The request of a handler is \<open>ctx.input\<close>; a response repeats some of its fields. The
  \<open>fetchedAt\<close> time stamp of every response is left out, and so is the fixed \<open>message\<close>
  that goes with a \<open>nextHoliday\<close> of null. The response of business-days lists the
  four counters side by side with its other fields; here they are one record, \<open>tally\<close>.
  The response of next-holiday calls \<open>fromDate\<close> what the handler calls \<open>today\<close>, and that
  of compare-countries calls \<open>countries\<close> what the handler calls \<open>results\<close>.
\<close>

record CountryField =
  country :: string

record StartField = CountryField +
  startDate :: string

record BusinessDaysInput = StartField +
  endDate :: string

text \<open>The four counters of the business-days loop, which the response lists.\<close>

record BusinessDayTally =
  businessDays :: int
  totalDays :: int
  weekendDays :: int
  holidayDays :: int

record BusinessDaysOutput = BusinessDaysInput +
  tally :: BusinessDayTally

record BusinessDaysIndexOutput = BusinessDaysOutput +
  workWeeks :: int

record AddBusinessDaysInput = StartField +
  daysToAdd :: int

record AddBusinessDaysOutput = StartField +
  businessDaysAdded :: int
  resultDate :: string
  calendarDaysMoved :: int

record NextHolidayInput = CountryField +
  fromDate :: "string option"

record NextHoliday = HolidayCore +
  daysUntil :: "int option"

record NextHolidayOutput = CountryField +
  today :: string
  nextHoliday :: "NextHoliday option"

record YearField =
  year :: int

record CompareInput = YearField +
  countries :: "string list"

record CountryResult = CountryField +
  totalHolidays :: nat
  holidays :: "(string \<times> string) list"

record CompareOutput = YearField +
  results :: "CountryResult list"
  sharedHolidayDates :: "string list"
  mostHolidays :: string
  fewestHolidays :: string

definition zero_tally :: BusinessDayTally where
  "zero_tally = \<lparr>businessDays = 0, totalDays = 0, weekendDays = 0, holidayDays = 0\<rparr>"

section \<open>business-days\<close>

subsection \<open>The holiday set of a span of years\<close>

text \<open>
  The first variant awaits \<open>getHolidays\<close> for every year
  from the start year to the end year with no handler around it: the first failure
  rejects the request.
\<close>

function holidayDates_of_years ::
  "provider \<Rightarrow> string \<Rightarrow> int \<Rightarrow> int \<Rightarrow> string set \<Rightarrow> error + string set" where
  "holidayDates_of_years nager cc y endYear holidayDates =
     (if y \<le> endYear then
        (case getHolidays nager cc y of
           Inl e \<Rightarrow> Inl e
         | Inr hs \<Rightarrow>
             holidayDates_of_years nager cc (y + 1) endYear (holidayDates \<union> set (map date hs)))
      else Inr holidayDates)"
  by pat_completeness auto

text \<open>
  \<open>src/index.ts\<close> and add-business-days wrap each fetch in \<open>try\<close>/\<open>catch\<close>: a year that
  fails adds nothing and the loop goes on.
\<close>

function holidaySet_of_years ::
  "provider \<Rightarrow> string \<Rightarrow> int \<Rightarrow> int \<Rightarrow> string set \<Rightarrow> string set" where
  "holidaySet_of_years nager cc y endYear holidaySet =
     (if y \<le> endYear then
        holidaySet_of_years nager cc (y + 1) endYear
          (case getHolidays nager cc y of
             Inl e \<Rightarrow> holidaySet
           | Inr hs \<Rightarrow> holidaySet \<union> set (map date hs))
      else holidaySet)"
  by pat_completeness auto

subsection \<open>The counting loop\<close>

text \<open>The first variant: three independent tests on \<open>weekend\<close> and \<open>holiday\<close>.\<close>

function business_days_loop ::
  "string set \<Rightarrow> Date \<Rightarrow> Date \<Rightarrow> BusinessDayTally \<Rightarrow> BusinessDayTally" where
  "business_days_loop holidayDates current end' acc =
     (if current \<le> end' then
        (let acc1 = acc\<lparr>totalDays := totalDays acc + 1\<rparr>;
             dateStr = formatDate current;
             weekend = isWeekend current;
             holiday = (dateStr \<in> holidayDates);
             acc2 = (if weekend then acc1\<lparr>weekendDays := weekendDays acc1 + 1\<rparr> else acc1);
             acc3 = (if holiday \<and> \<not> weekend
                     then acc2\<lparr>holidayDays := holidayDays acc2 + 1\<rparr> else acc2);
             acc4 = (if \<not> weekend \<and> \<not> holiday
                     then acc3\<lparr>businessDays := businessDays acc3 + 1\<rparr> else acc3)
         in business_days_loop holidayDates (setDate current (getDate current + 1)) end' acc4)
      else acc)"
  by pat_completeness auto

text \<open>\<open>src/index.ts\<close>: an \<open>if\<close> / \<open>else if\<close> / \<open>else\<close> chain.\<close>

function business_days_index_loop ::
  "string set \<Rightarrow> Date \<Rightarrow> Date \<Rightarrow> BusinessDayTally \<Rightarrow> BusinessDayTally" where
  "business_days_index_loop holidaySet current end' acc =
     (if current \<le> end' then
        (let acc1 = acc\<lparr>totalDays := totalDays acc + 1\<rparr>;
             dateStr = formatDate current;
             acc2 = (if isWeekend current then acc1\<lparr>weekendDays := weekendDays acc1 + 1\<rparr>
                     else if dateStr \<in> holidaySet
                     then acc1\<lparr>holidayDays := holidayDays acc1 + 1\<rparr>
                     else acc1\<lparr>businessDays := businessDays acc1 + 1\<rparr>)
         in business_days_index_loop holidaySet (setDate current (getDate current + 1)) end' acc2)
      else acc)"
  by pat_completeness auto

subsection \<open>The handlers\<close>

text \<open>
  A comparison with NaN is false: with a year that is not a number the fetch loop does
  not run, with an Invalid Date the counting loop does not run. The first variant then
  answers with four zeros; \<open>src/index.ts\<close> formats \<open>start\<close> and \<open>end\<close> for its
  response, and \<open>toISOString\<close> throws a RangeError on an Invalid Date.
\<close>

definition business_days_holidayDates ::
  "provider \<Rightarrow> BusinessDaysInput \<Rightarrow> error + string set" where
  "business_days_holidayDates nager input =
     (case (parseInt_year (startDate input), parseInt_year (endDate input)) of
        (Some startYear, Some endYear) \<Rightarrow>
          holidayDates_of_years nager (toUpperCase (country input)) startYear endYear {}
      | _ \<Rightarrow> Inr {})"

definition business_days :: "provider \<Rightarrow> BusinessDaysInput \<Rightarrow> error + BusinessDaysOutput" where
  "business_days nager input =
     (case business_days_holidayDates nager input of
        Inl e \<Rightarrow> Inl e
      | Inr holidayDates \<Rightarrow>
          Inr \<lparr>country = toUpperCase (country input),
               startDate = startDate input,
               endDate = endDate input,
               tally = (case (parseDate (startDate input), parseDate (endDate input)) of
                          (Some current, Some end') \<Rightarrow>
                            business_days_loop holidayDates current end' zero_tally
                        | _ \<Rightarrow> zero_tally)\<rparr>)"

definition business_days_index_holidaySet ::
  "provider \<Rightarrow> BusinessDaysInput \<Rightarrow> Date \<Rightarrow> Date \<Rightarrow> string set" where
  "business_days_index_holidaySet nager input start end' =
     holidaySet_of_years nager (toUpperCase (country input))
       (getFullYear start) (getFullYear end') {}"

definition business_days_index ::
  "provider \<Rightarrow> BusinessDaysInput \<Rightarrow> error + BusinessDaysIndexOutput" where
  "business_days_index nager input =
     (case (new_Date (startDate input), new_Date (endDate input)) of
        (Some start, Some end') \<Rightarrow>
          (let holidaySet = business_days_index_holidaySet nager input start end';
               t = business_days_index_loop holidaySet start end' zero_tally
           in Inr \<lparr>country = toUpperCase (country input),
                   startDate = formatDate start,
                   endDate = formatDate end',
                   tally = t,
                   workWeeks = businessDays t div 5\<rparr>)
      | _ \<Rightarrow> Inl RangeError)"

section \<open>add-business-days\<close>

text \<open>
  The walk has no bound of its own, so the loop is a partial function: \<open>None\<close> is a walk
  that never ends. The counter \<open>businessDaysAdded\<close> of the source is \<open>added\<close> here
  (the response has a field of that name).
\<close>

partial_function (option) add_business_days_loop ::
  "string set \<Rightarrow> int \<Rightarrow> Date \<Rightarrow> int \<Rightarrow> int \<Rightarrow> (Date \<times> int) option" where
  "add_business_days_loop holidayDates n current added totalDaysMoved =
     (if added < n then
        (let current' = setDate current (getDate current + 1);
             totalDaysMoved' = totalDaysMoved + 1;
             dateStr = formatDate current'
         in add_business_days_loop holidayDates n current'
              (if \<not> isWeekend current' \<and> dateStr \<notin> holidayDates then added + 1 else added)
              totalDaysMoved')
      else Some (current, totalDaysMoved))"

text \<open>
  With an Invalid Date the loop (or, for no day to add, the response) calls
  \<open>toISOString\<close> on it, which throws.
\<close>

definition add_business_days_holidayDates ::
  "provider \<Rightarrow> AddBusinessDaysInput \<Rightarrow> string set" where
  "add_business_days_holidayDates nager input =
     (case parseInt_year (startDate input) of
        Some startYear \<Rightarrow>
          holidaySet_of_years nager (toUpperCase (country input)) startYear (startYear + 2) {}
      | None \<Rightarrow> {})"

definition add_business_days ::
  "provider \<Rightarrow> AddBusinessDaysInput \<Rightarrow> (error + AddBusinessDaysOutput) option" where
  "add_business_days nager input =
     (let holidayDates = add_business_days_holidayDates nager input
      in case parseDate (startDate input) of
           None \<Rightarrow> Some (Inl RangeError)
         | Some start \<Rightarrow>
             (case add_business_days_loop holidayDates (daysToAdd input) start 0 0 of
                None \<Rightarrow> None
              | Some (current, totalDaysMoved) \<Rightarrow>
                  Some (Inr \<lparr>country = toUpperCase (country input),
                             startDate = startDate input,
                             businessDaysAdded = daysToAdd input,
                             resultDate = formatDate current,
                             calendarDaysMoved = totalDaysMoved\<rparr>)))"

section \<open>next-holiday\<close>

text \<open>
  \<open>now\<close> is the clock, read when the request names no date. Both years are fetched
  under \<open>Promise.all\<close>, so either failure rejects the request (and a year that is not a
  number is no request the provider can answer). \<open>h.date > today\<close> compares strings by
  code unit; \<open>localeCompare\<close> agrees with that order on the digits and hyphens of date
  strings, and \<open>sort\<close> is stable, as \<open>sort_key\<close> is.
\<close>

definition next_holiday_today :: "Date \<Rightarrow> NextHolidayInput \<Rightarrow> string" where
  "next_holiday_today now input =
     (case fromDate input of
        None \<Rightarrow> formatDate now
      | Some s \<Rightarrow> if s = [] then formatDate now else s)"

definition next_holiday :: "provider \<Rightarrow> Date \<Rightarrow> NextHolidayInput \<Rightarrow> error + NextHolidayOutput" where
  "next_holiday nager now input =
     (let tday = next_holiday_today now input;
          cc = toUpperCase (country input)
      in case parseInt_year tday of
           None \<Rightarrow> Inl ProviderError
         | Some y \<Rightarrow>
            (case (getHolidays nager cc y, getHolidays nager cc (y + 1)) of
               (Inl e, _) \<Rightarrow> Inl e
             | (Inr currentYearHolidays, Inl e) \<Rightarrow> Inl e
             | (Inr currentYearHolidays, Inr nextYearHolidays) \<Rightarrow>
                 (let allHolidays = currentYearHolidays @ nextYearHolidays;
                      futureHolidays = sort_key date (filter (\<lambda>h. date h > tday) allHolidays)
                  in case futureHolidays of
                       [] \<Rightarrow> Inr \<lparr>country = cc, today = tday, nextHoliday = None\<rparr>
                     | h # _ \<Rightarrow>
                         Inr \<lparr>country = cc, today = tday,
                              nextHoliday = Some
                                \<lparr>date = date h, name = name h, localName = localName h,
                                 types = types h,
                                 daysUntil =
                                   (case (parseDate (date h), parseDate tday) of
                                      (Some a, Some b) \<Rightarrow>
                                        Some (ceil_div (getTime a - getTime b) msPerDay)
                                    | _ \<Rightarrow> None)\<rparr>\<rparr>)))"

section \<open>compare-countries\<close>

text \<open>
  \<open>dateCounts\<close> is an object used as a dictionary: an association list in the order in
  which the keys were first written. The default \<open>sort\<close> orders strings by code unit.
  \<open>reduce\<close> with no initial value throws a TypeError on an empty array.
\<close>

definition country_result :: "provider \<Rightarrow> int \<Rightarrow> string \<Rightarrow> error + CountryResult" where
  "country_result nager y cc =
     (case getHolidays nager cc y of
        Inl e \<Rightarrow> Inl e
      | Inr hs \<Rightarrow>
          Inr \<lparr>country = cc, totalHolidays = length hs,
               holidays = map (\<lambda>h. (date h, name h)) hs\<rparr>)"

fun promise_all :: "(error + 'a) list \<Rightarrow> error + 'a list" where
  "promise_all [] = Inr []"
| "promise_all (Inl e # ps) = Inl e"
| "promise_all (Inr x # ps) = (case promise_all ps of Inl e \<Rightarrow> Inl e | Inr xs \<Rightarrow> Inr (x # xs))"

definition count_date :: "string \<Rightarrow> (string \<times> nat) list \<Rightarrow> (string \<times> nat) list" where
  "count_date d acc =
     AList.update d ((case map_of acc d of None \<Rightarrow> 0 | Some c \<Rightarrow> c) + 1) acc"

definition shared_dates :: "CountryResult list \<Rightarrow> string list" where
  "shared_dates rs =
     (let allDates = concat (map (\<lambda>r. map fst (holidays r)) rs);
          dateCounts = fold count_date allDates []
      in sort (map fst (filter (\<lambda>(d, count). count > 1) dateCounts)))"

definition compare_countries :: "provider \<Rightarrow> CompareInput \<Rightarrow> error + CompareOutput" where
  "compare_countries nager input =
     (let countryCodes = map toUpperCase (countries input)
      in case promise_all (map (country_result nager (year input)) countryCodes) of
           Inl e \<Rightarrow> Inl e
         | Inr [] \<Rightarrow> Inl TypeError
         | Inr (r # rs) \<Rightarrow>
             Inr \<lparr>year = year input,
                  results = r # rs,
                  sharedHolidayDates = shared_dates (r # rs),
                  mostHolidays =
                    country (fold (\<lambda>r mx. if totalHolidays r > totalHolidays mx then r else mx) rs r),
                  fewestHolidays =
                    country (fold (\<lambda>r mn. if totalHolidays r < totalHolidays mn then r else mn) rs r)\<rparr>)"

section \<open>The words of the theorems\<close>

text \<open>
  What the theorems speak of: the days a range runs over, one time value for each day
  from \<open>current\<close> up to \<open>end'\<close>; a business day for a holiday set, as the handlers
  test it; and the number of days of a list that have a property.
\<close>

function days_of_range :: "Date \<Rightarrow> Date \<Rightarrow> Date list" where
  "days_of_range current end' =
     (if current \<le> end' then current # days_of_range (current + msPerDay) end' else [])"
  by pat_completeness auto

termination
  by (relation "measure (\<lambda>(current, end'). nat (end' + 1 - current))")
     (auto simp add: msPerDay_def)

declare days_of_range.simps [simp del]

definition business_day :: "string set \<Rightarrow> Date \<Rightarrow> bool" where
  "business_day holidayDates d = (\<not> isWeekend d \<and> formatDate d \<notin> holidayDates)"

definition weekday_holiday :: "string set \<Rightarrow> Date \<Rightarrow> bool" where
  "weekday_holiday holidayDates d = (\<not> isWeekend d \<and> formatDate d \<in> holidayDates)"

definition count_days :: "(Date \<Rightarrow> bool) \<Rightarrow> Date list \<Rightarrow> int" where
  "count_days P ds = int (length (filter P ds))"

text \<open>
  \<open>day_after t k\<close> is the day \<open>k\<close> days after \<open>t\<close>, and \<open>business_days_after H t k\<close>
  the number of business days among the \<open>k\<close> days that follow \<open>t\<close> (\<open>t\<close> itself is not
  one of them).
\<close>

definition day_after :: "Date \<Rightarrow> nat \<Rightarrow> Date" where
  "day_after t k = t + int k * msPerDay"

definition business_days_after :: "string set \<Rightarrow> Date \<Rightarrow> nat \<Rightarrow> int" where
  "business_days_after H t k = count_days (business_day H) (map (day_after t) [1..<Suc k])"

text \<open>
  The dates a provider lists for a country and a year, none when the fetch fails; and
  the provider that answers one more request, with the empty list.
\<close>

definition holiday_dates :: "provider \<Rightarrow> string \<Rightarrow> int \<Rightarrow> string set" where
  "holiday_dates nager cc y =
     (case getHolidays nager cc y of Inl e \<Rightarrow> {} | Inr hs \<Rightarrow> set (map date hs))"

definition with_empty_year :: "provider \<Rightarrow> string \<Rightarrow> int \<Rightarrow> provider" where
  "with_empty_year nager cc y = (\<lambda>c y'. if c = cc \<and> y' = y then Some [] else nager c y')"

text \<open>The count that \<open>dateCounts\<close> holds for a date, 0 when it has no entry.\<close>

definition date_count :: "(string \<times> nat) list \<Rightarrow> string \<Rightarrow> nat" where
  "date_count acc d = (case map_of acc d of None \<Rightarrow> 0 | Some c \<Rightarrow> c)"




section \<open>A provider to run the handlers on\<close>

definition holiday :: "string \<Rightarrow> string \<Rightarrow> HolidayRecord" where
  "holiday d n = \<lparr>date = d, name = n, localName = n, types = [''Public''], global = True\<rparr>"

text \<open>
  Some holidays of the United States, of Great Britain and of Germany as Nager.Date
  lists them; the second Monday of October 2025 is there twice, as Columbus Day and as
  Indigenous Peoples' Day, and the German Unity Day of 2026 is a Saturday. No other
  country or year is served.
\<close>

definition sample_nager :: provider where
  "sample_nager cc y =
     (if cc = ''US'' \<and> y = 2024 then
        Some [holiday ''2024-01-01'' ''New Year's Day'',
              holiday ''2024-07-04'' ''Independence Day'',
              holiday ''2024-12-25'' ''Christmas Day'']
      else if cc = ''US'' \<and> y = 2025 then
        Some [holiday ''2025-01-01'' ''New Year's Day'',
              holiday ''2025-10-13'' ''Columbus Day'',
              holiday ''2025-10-13'' ''Indigenous Peoples' Day'',
              holiday ''2025-12-25'' ''Christmas Day'']
      else if cc = ''GB'' \<and> y = 2025 then
        Some [holiday ''2025-01-01'' ''New Year's Day'',
              holiday ''2025-04-18'' ''Good Friday'',
              holiday ''2025-12-25'' ''Christmas Day'',
              holiday ''2025-12-26'' ''Boxing Day'']
      else if cc = ''DE'' \<and> y = 2026 then
        Some [holiday ''2026-01-01'' ''New Year's Day'',
              holiday ''2026-10-03'' ''German Unity Day'',
              holiday ''2026-12-25'' ''Christmas Day'']
      else None)"

subsection \<open>Requests\<close>



definition reversed_unserved :: BusinessDaysInput where
  "reversed_unserved = \<lparr>country = ''xx'', startDate = ''2024-06-10'', endDate = ''2024-06-01''\<rparr>"


definition turn_of_2026 :: BusinessDaysInput where
  "turn_of_2026 = \<lparr>country = ''us'', startDate = ''2025-12-31'', endDate = ''2026-01-02''\<rparr>"



definition after_christmas :: NextHolidayInput where
  "after_christmas = \<lparr>country = ''us'', fromDate = Some ''2024-12-26''\<rparr>"

definition us_and_gb_2025 :: CompareInput where
  "us_and_gb_2025 = \<lparr>year = 2025, countries = [''us'', ''gb'']\<rparr>"

section \<open>Facts about the calendar\<close>

lemma year_in_era_bounds:
  assumes "0 \<le> doe" "doe < 146097" "year_in_era doe = (yoe, doy)"
  shows "0 \<le> yoe \<and> yoe \<le> 399 \<and> 0 \<le> doy \<and> doy \<le> 365
         \<and> 365 * yoe + yoe div 4 - yoe div 100 + doy = doe"
proof -
  define cent where "cent = min 3 (doe div 36524)"
  define doc where "doc = doe - 36524 * cent"
  define quad where "quad = doc div 1461"
  define doq where "doq = doc mod 1461"
  define yoq where "yoq = min 3 (doq div 365)"
  have yoe: "yoe = 100 * cent + 4 * quad + yoq" and doy: "doy = doq - 365 * yoq"
    using assms(3)
    by (simp_all add: year_in_era_def Let_def cent_def doc_def quad_def doq_def yoq_def)
  have c: "0 \<le> cent" "cent \<le> 3" using assms(1) by (simp_all add: cent_def)
  have dc: "0 \<le> doc" "doc \<le> 36524"
    using assms(1,2) unfolding doc_def cent_def by linarith+
  have q: "0 \<le> quad" "quad \<le> 24" using dc unfolding quad_def by linarith+
  have dq: "0 \<le> doq" "doq \<le> 1460" "doc = 1461 * quad + doq"
    unfolding doq_def quad_def by (linarith, linarith, simp)
  have yq: "0 \<le> yoq" "yoq \<le> 3" using dq(1) by (simp_all add: yoq_def)
  have dy: "0 \<le> doy" "doy \<le> 365" using dq(1,2) unfolding doy yoq_def by linarith+
  have q99: "4 * quad + yoq \<le> 99" using q yq by linarith
  have d4: "yoe div 4 = 25 * cent + quad" unfolding yoe using yq by linarith
  have d100: "yoe div 100 = cent" unfolding yoe using q99 q yq by linarith
  have eq: "365 * yoe + yoe div 4 - yoe div 100 + doy = doe"
  proof -
    have "doe = 36524 * cent + 1461 * quad + doq" using dq(3) by (simp add: doc_def)
    then show ?thesis unfolding d4 d100 unfolding yoe doy by simp
  qed
  have "0 \<le> yoe" "yoe \<le> 399" unfolding yoe using c q99 q yq by linarith+
  then show ?thesis using dy eq by simp
qed

lemma month_in_year_bounds:
  assumes "0 \<le> doy" "doy \<le> 365" "month_in_year doy = (mp, d)"
  shows "0 \<le> mp \<and> mp \<le> 11 \<and> 1 \<le> d \<and> d \<le> 31 \<and> (153 * mp + 2) div 5 + d - 1 = doy"
proof -
  have mp: "mp = (5 * doy + 2) div 153" and d: "d = doy - (153 * mp + 2) div 5 + 1"
    using assms(3) by (auto simp add: month_in_year_def Let_def)
  have b: "0 \<le> mp" "mp \<le> 11" using assms(1,2) unfolding mp by linarith+
  have cases: "mp = 0 \<or> mp = 1 \<or> mp = 2 \<or> mp = 3 \<or> mp = 4 \<or> mp = 5 \<or> mp = 6
      \<or> mp = 7 \<or> mp = 8 \<or> mp = 9 \<or> mp = 10 \<or> mp = 11"
    using b by presburger
  have rng: "153 * mp \<le> 5 * doy + 2" "5 * doy + 2 < 153 * mp + 153"
    unfolding mp by linarith+
  have "1 \<le> d \<and> d \<le> 31"
    using cases rng assms(2) unfolding d by (elim disjE) simp_all
  then show ?thesis using b d by simp
qed

lemma civil_from_days_fields:
  assumes "civil_from_days z = (y, m, d)"
  shows "1 \<le> m \<and> m \<le> 12 \<and> 1 \<le> d \<and> d \<le> 31 \<and> days_from_civil y m d = z"
proof -
  define era where "era = (z + 719468) div 146097"
  define doe where "doe = (z + 719468) mod 146097"
  obtain yoe doy where yd: "year_in_era doe = (yoe, doy)" by (cases "year_in_era doe")
  obtain mp dd where md: "month_in_year doy = (mp, dd)" by (cases "month_in_year doy")
  have doe: "0 \<le> doe" "doe < 146097" unfolding doe_def by simp_all
  note yb = year_in_era_bounds [OF doe yd]
  from yb have dy: "0 \<le> doy" "doy \<le> 365" by simp_all
  note mb = month_in_year_bounds [OF dy md]
  have m: "m = (if mp < 10 then mp + 3 else mp - 9)"
    and d: "d = dd"
    and y: "y = (if m \<le> 2 then 400 * era + yoe + 1 else 400 * era + yoe)"
    using assms yd md
    by (auto simp add: civil_from_days_def Let_def era_def [symmetric] doe_def [symmetric])
  have y': "(if m \<le> 2 then y - 1 else y) = 400 * era + yoe" using y by simp
  have e: "(400 * era + yoe) div 400 = era" "(400 * era + yoe) mod 400 = yoe"
    using yb by simp_all
  have mp: "(if m > 2 then m - 3 else m + 9) = mp" using m mb by auto
  have z: "z = era * 146097 + doe - 719468" unfolding era_def doe_def by simp
  have "days_from_civil y m d = z"
    unfolding days_from_civil_def Let_def y' e mp d using mb yb z by simp
  moreover have "1 \<le> m \<and> m \<le> 12" using m mb by auto
  ultimately show ?thesis using mb d by simp
qed

lemma days_from_civil_day: "days_from_civil y m d = days_from_civil y m 1 + d - 1"
  by (simp add: days_from_civil_def Let_def)

lemma MakeDay_civil:
  assumes "civil_from_days z = (y, m, d)"
  shows "MakeDay y (m - 1) dt = z + (dt - d)"
proof -
  from civil_from_days_fields [OF assms]
  have m: "1 \<le> m" "m \<le> 12" and z: "days_from_civil y m d = z" by simp_all
  have "(m - 1) div 12 = 0" "(m - 1) mod 12 + 1 = m" using m by simp_all
  then have "MakeDay y (m - 1) dt = days_from_civil y m 1 + dt - 1"
    by (simp add: MakeDay_def)
  with z days_from_civil_day [of y m d] show ?thesis by simp
qed

lemma setDate_getDate: "setDate t (getDate t + k) = t + k * msPerDay"
proof -
  obtain y m d where c: "civil_from_days (Day t) = (y, m, d)"
    by (cases "civil_from_days (Day t)")
  have "setDate t (getDate t + k) = (Day t + k) * msPerDay + TimeWithinDay t"
    using MakeDay_civil [OF c, of "d + k"]
    by (simp add: setDate_def setUTCDate_def getFullYear_def getUTCFullYear_def getMonth_def getUTCMonth_def getDate_def getUTCDate_def c)
  then show ?thesis
    by (simp add: Day_def TimeWithinDay_def algebra_simps)
qed

lemma Day_add_day: "Day (t + k * msPerDay) = Day t + k"
  by (simp add: Day_def msPerDay_def)

lemma getDay_range: "0 \<le> getDay t \<and> getDay t \<le> 6"
  by (simp add: getDay_def getUTCDay_def)

subsection \<open>Evaluating dates\<close>

text \<open>The equations that compute a date, a week day or a parse on a numeral.\<close>

lemma digit_char_values:
  "digit_char 0 = CHR ''0''" "digit_char 1 = CHR ''1''" "digit_char 2 = CHR ''2''"
  "digit_char 3 = CHR ''3''" "digit_char 4 = CHR ''4''" "digit_char 5 = CHR ''5''"
  "digit_char 6 = CHR ''6''" "digit_char 7 = CHR ''7''" "digit_char 8 = CHR ''8''"
  "digit_char 9 = CHR ''9''" "digit_char (Suc 0) = CHR ''1''"
  by code_simp+

lemmas date_eval = formatDate_def Day_def msPerDay_def civil_from_days_def year_in_era_def
  month_in_year_def Let_def year_string_def padStart_def dec.simps digit_char_values
  isWeekend_def getDay_def getUTCDay_def

lemmas parse_eval = parseDate_def new_Date_def is_digit_def undec_def digit_val_def
  daysInMonth_def isLeapYear_def days_from_civil_def msPerDay_def Let_def

section \<open>The loops terminate\<close>

termination holidayDates_of_years
  by (relation "measure (\<lambda>(nager, cc, y, endYear, holidayDates). nat (endYear + 1 - y))") auto

termination holidaySet_of_years
  by (relation "measure (\<lambda>(nager, cc, y, endYear, holidaySet). nat (endYear + 1 - y))") auto

termination business_days_loop
  by (relation "measure (\<lambda>(holidayDates, current, end', acc). nat (end' + 1 - current))")
     (auto simp add: setDate_getDate [of _ 1, simplified] msPerDay_def)

termination business_days_index_loop
  by (relation "measure (\<lambda>(holidaySet, current, end', acc). nat (end' + 1 - current))")
     (auto simp add: setDate_getDate [of _ 1, simplified] msPerDay_def)

declare business_days_loop.simps [simp del]

declare business_days_index_loop.simps [simp del]

declare holidayDates_of_years.simps [simp del]

declare holidaySet_of_years.simps [simp del]

section \<open>Days, ranges and counts\<close>

lemma next_day: "setDate t (getDate t + 1) = t + msPerDay"
  using setDate_getDate [of t 1] by simp

lemma count_days_Cons: "count_days P (d # ds) = (if P d then 1 else 0) + count_days P ds"
  by (simp add: count_days_def)

lemma count_days_Nil: "count_days P [] = 0"
  by (simp add: count_days_def)


lemma business_days_loop_counts:
  "business_days_loop H c e acc =
     \<lparr>businessDays = businessDays acc + count_days (business_day H) (days_of_range c e),
      totalDays = totalDays acc + int (length (days_of_range c e)),
      weekendDays = weekendDays acc + count_days isWeekend (days_of_range c e),
      holidayDays = holidayDays acc + count_days (weekday_holiday H) (days_of_range c e)\<rparr>"
proof (induction H c e acc rule: business_days_loop.induct)
  case (1 H c e acc)
  show ?case
  proof (cases "c \<le> e")
    case True
    show ?thesis
      apply (subst business_days_loop.simps)
      apply (subst (1 2 3 4) days_of_range.simps)
      using True 1 [OF True refl refl refl refl refl refl refl]
      by (cases "isWeekend c"; cases "formatDate c \<in> H";
          simp add: Let_def next_day count_days_Cons business_day_def [of H c]
            weekday_holiday_def [of H c])
  next
    case False
    then show ?thesis
      by (simp add: business_days_loop.simps [of H c e] days_of_range.simps [of c e]
            count_days_Nil)
  qed
qed

lemma business_days_index_loop_counts:
  "business_days_index_loop H c e acc =
     \<lparr>businessDays = businessDays acc + count_days (business_day H) (days_of_range c e),
      totalDays = totalDays acc + int (length (days_of_range c e)),
      weekendDays = weekendDays acc + count_days isWeekend (days_of_range c e),
      holidayDays = holidayDays acc + count_days (weekday_holiday H) (days_of_range c e)\<rparr>"
proof (induction H c e acc rule: business_days_index_loop.induct)
  case (1 H c e acc)
  show ?case
  proof (cases "c \<le> e")
    case True
    show ?thesis
      apply (subst business_days_index_loop.simps)
      apply (subst (1 2 3 4) days_of_range.simps)
      using True 1 [OF True refl refl refl]
      by (cases "isWeekend c"; cases "formatDate c \<in> H";
          simp add: Let_def next_day count_days_Cons business_day_def [of H c]
            weekday_holiday_def [of H c])
  next
    case False
    then show ?thesis
      by (simp add: business_days_index_loop.simps [of H c e] days_of_range.simps [of c e]
            count_days_Nil)
  qed
qed

lemma length_days_of_range:
  "length (days_of_range c e) = (if c \<le> e then nat ((e - c) div msPerDay + 1) else 0)"
proof (induction c e rule: days_of_range.induct)
  case (1 c e)
  show ?case
  proof (cases "c \<le> e")
    case True
    have d: "(e - c) div msPerDay
               = (if c + msPerDay \<le> e then (e - (c + msPerDay)) div msPerDay + 1 else 0)"
      using True unfolding msPerDay_def by auto
    show ?thesis
      apply (subst days_of_range.simps)
      using True 1 [OF True] d
      by (auto simp add: nat_add_distrib msPerDay_def)
  next
    case False
    then show ?thesis by (simp add: days_of_range.simps [of c e])
  qed
qed

lemma new_Date_midnight: "new_Date x = Some t \<Longrightarrow> t = Day t * msPerDay"
  by (auto simp add: new_Date_def Let_def Day_def msPerDay_def split: if_splits)


section \<open>The ISO week\<close>

text \<open>
  C7. The ISO week number of 2021-01-01 is 53: the Thursday of its week is
  2020-12-31, the 366th day of 2020, and 366 / 7 rounds up to 53.
\<close>

theorem getISOWeek_2021_01_01:
  "map_option getISOWeek (new_Date ''2021-01-01'') = Some 53"
  by code_simp

section \<open>The tally of business-days\<close>




lemma business_days_fetched:
  assumes "parseDate (startDate input) = Some s"
    and "parseDate (endDate input) = Some e"
    and "business_days_holidayDates nager input = Inr H"
  shows "business_days nager input =
           Inr \<lparr>country = toUpperCase (country input), startDate = startDate input,
                endDate = endDate input, tally = business_days_loop H s e zero_tally\<rparr>"
  using assms by (simp add: business_days_def)

lemma business_days_failed:
  assumes "business_days_holidayDates nager input = Inl err"
  shows "business_days nager input = Inl err"
  using assms by (simp add: business_days_def)

lemma business_days_index_parsed:
  assumes "parseDate (startDate input) = Some s"
    and "parseDate (endDate input) = Some e"
  shows "business_days_index nager input =
           Inr \<lparr>country = toUpperCase (country input), startDate = formatDate s,
                endDate = formatDate e,
                tally = business_days_index_loop
                          (business_days_index_holidaySet nager input s e) s e zero_tally,
                workWeeks = businessDays (business_days_index_loop
                          (business_days_index_holidaySet nager input s e) s e zero_tally) div 5\<rparr>"
  using assms by (simp add: business_days_index_def parseDate_def Let_def)



lemma count_eval:
  "count_days P [] = 0"
  "count_days P (d # ds) = (if P d then 1 else 0) + count_days P ds"
  by (simp_all add: count_days_def)




section \<open>A range that ends before it starts\<close>

lemma days_of_range_empty: "e < s \<Longrightarrow> days_of_range s e = []"
  by (simp add: days_of_range.simps [of s e])

lemma reversed_range_loops:
  assumes "e < s"
  shows "business_days_loop H s e zero_tally = zero_tally"
    and "business_days_index_loop H s e zero_tally = zero_tally"
  using assms
  by (simp_all add: business_days_loop_counts business_days_index_loop_counts
      days_of_range_empty count_days_Nil zero_tally_def)



text \<open>
  The first variant asks for the year of such a range too, when start and end lie in
  one year, and nothing catches a fetch that fails: the request is then rejected before
  the loop is reached, where \<open>src/index.ts\<close> answers with the zeros.
\<close>

lemma business_days_reversed_unserved:
  "parseDate (startDate reversed_unserved) = Some 1717977600000
   \<and> parseDate (endDate reversed_unserved) = Some 1717200000000
   \<and> (1717200000000 :: int) < 1717977600000
   \<and> business_days sample_nager reversed_unserved = Inl ProviderError
   \<and> (\<exists>out. business_days_index sample_nager reversed_unserved = Inr out
          \<and> tally out = zero_tally)"
proof -
  have s: "parseDate (startDate reversed_unserved) = Some 1717977600000"
    and e: "parseDate (endDate reversed_unserved) = Some 1717200000000"
    by (simp_all add: reversed_unserved_def parse_eval)
  have f: "business_days_holidayDates sample_nager reversed_unserved = Inl ProviderError"
    by code_simp
  show ?thesis
    using s e reversed_range_loops(2) [of 1717200000000 1717977600000]
    by (simp add: business_days_failed [OF f] business_days_index_parsed [OF s e])
qed

section \<open>A year whose fetch fails\<close>

text \<open>
  Where the fetch stands in \<open>try\<close>/\<open>catch\<close>, a year that fails counts as a year with no
  holiday: the provider may as well have answered with the empty list.
\<close>

lemma holidaySet_of_years_failed_year:
  "nager cc y0 = None \<Longrightarrow>
   holidaySet_of_years (with_empty_year nager cc y0) c y endYear acc
     = holidaySet_of_years nager c y endYear acc"
proof (induction nager c y endYear acc rule: holidaySet_of_years.induct)
  case (1 nager c y endYear acc)
  show ?case
  proof (cases "y \<le> endYear")
    case True
    have g: "(case getHolidays (with_empty_year nager cc y0) c y of
                Inl e \<Rightarrow> acc | Inr hs \<Rightarrow> acc \<union> set (map date hs))
           = (case getHolidays nager c y of
                Inl e \<Rightarrow> acc | Inr hs \<Rightarrow> acc \<union> set (map date hs))"
      using "1.prems" by (auto simp add: getHolidays_def with_empty_year_def)
    show ?thesis
      apply (subst holidaySet_of_years.simps)
      apply (subst (2) holidaySet_of_years.simps)
      using True g "1.IH" [OF True "1.prems"] by simp
  next
    case False
    then show ?thesis
      by (simp add: holidaySet_of_years.simps [of _ c y endYear acc])
  qed
qed

lemma business_days_index_failed_year:
  "nager cc y0 = None \<Longrightarrow>
   business_days_index (with_empty_year nager cc y0) input = business_days_index nager input"
  by (simp add: business_days_index_def business_days_index_holidaySet_def
      holidaySet_of_years_failed_year split: option.splits)

lemma add_business_days_failed_year:
  "nager cc y0 = None \<Longrightarrow>
   add_business_days (with_empty_year nager cc y0) input = add_business_days nager input"
  by (simp add: add_business_days_def add_business_days_holidayDates_def
      holidaySet_of_years_failed_year split: option.splits)

text \<open>
  C2 holds for \<open>src/index.ts\<close> and for add-business-days (the two lemmas above), and
  fails for business-days in the first variant, whose fetch loop has no \<open>try\<close>: the
  provider serves 2025 and fails for 2026, and the request from 2025-12-31 to
  2026-01-02 is rejected, where the same provider with an empty 2026 gives three
  business days, the answer of \<open>src/index.ts\<close>.
\<close>

theorem business_days_rejects_failed_year:
  "sample_nager ''US'' 2026 = None
   \<and> business_days sample_nager turn_of_2026 = Inl ProviderError
   \<and> business_days (with_empty_year sample_nager ''US'' 2026) turn_of_2026 =
       Inr \<lparr>country = ''US'', startDate = ''2025-12-31'', endDate = ''2026-01-02'',
            tally = \<lparr>businessDays = 3, totalDays = 3, weekendDays = 0, holidayDays = 0\<rparr>\<rparr>
   \<and> business_days_index sample_nager turn_of_2026 =
       Inr \<lparr>country = ''US'', startDate = ''2025-12-31'', endDate = ''2026-01-02'',
            tally = \<lparr>businessDays = 3, totalDays = 3, weekendDays = 0, holidayDays = 0\<rparr>,
            workWeeks = 0\<rparr>"
proof -
  have n: "sample_nager ''US'' 2026 = None" by code_simp
  have s: "parseDate (startDate turn_of_2026) = Some 1767139200000"
    and e: "parseDate (endDate turn_of_2026) = Some 1767312000000"
    by (simp_all add: turn_of_2026_def parse_eval)
  have u: "toUpperCase (country turn_of_2026) = ''US''" by code_simp
  have f: "business_days_holidayDates sample_nager turn_of_2026 = Inl ProviderError"
    by code_simp
  have hs: "business_days_holidayDates (with_empty_year sample_nager ''US'' 2026) turn_of_2026
              = Inr {''2025-01-01'', ''2025-10-13'', ''2025-12-25''}"
    by code_simp
  have y: "getFullYear 1767139200000 = 2025" "getFullYear 1767312000000 = 2026"
    by (simp_all add: getFullYear_def getUTCFullYear_def date_eval)
  have hs': "business_days_index_holidaySet sample_nager turn_of_2026
               1767139200000 1767312000000 = {''2025-01-01'', ''2025-10-13'', ''2025-12-25''}"
    unfolding business_days_index_holidaySet_def y by code_simp
  have fd: "formatDate 1767139200000 = ''2025-12-31''" "formatDate 1767312000000 = ''2026-01-02''"
    by (simp_all add: date_eval)
  have r1: "business_days (with_empty_year sample_nager ''US'' 2026) turn_of_2026 =
       Inr \<lparr>country = ''US'', startDate = ''2025-12-31'', endDate = ''2026-01-02'',
            tally = \<lparr>businessDays = 3, totalDays = 3, weekendDays = 0, holidayDays = 0\<rparr>\<rparr>"
    unfolding business_days_fetched [OF s e hs] u
    by (simp add: turn_of_2026_def business_days_loop_counts days_of_range.simps
        count_eval business_day_def weekday_holiday_def zero_tally_def date_eval)
  have r2: "business_days_index sample_nager turn_of_2026 =
       Inr \<lparr>country = ''US'', startDate = ''2025-12-31'', endDate = ''2026-01-02'',
            tally = \<lparr>businessDays = 3, totalDays = 3, weekendDays = 0, holidayDays = 0\<rparr>,
            workWeeks = 0\<rparr>"
    unfolding business_days_index_parsed [OF s e] u hs' fd
    by (simp add: business_days_index_loop_counts days_of_range.simps
        count_eval business_day_def weekday_holiday_def zero_tally_def date_eval)
  show ?thesis
    using n r1 r2 by (simp add: business_days_failed [OF f])
qed

section \<open>Date strings name one day\<close>

lemma digit_val_digit_char: "n < 10 \<Longrightarrow> digit_val (digit_char n) = n"
  by (simp add: digit_val_def digit_char_def)

lemma undec_snoc: "undec (s @ [c]) = 10 * undec s + digit_val c"
  by (simp add: undec_def)

lemma undec_dec: "undec (dec n) = n"
proof (induction n rule: dec.induct)
  case (1 n)
  show ?case
  proof (cases "n < 10")
    case True
    then show ?thesis
      by (subst dec.simps) (simp add: undec_def digit_val_digit_char)
  next
    case False
    then show ?thesis
      using 1 by (subst dec.simps) (simp add: undec_snoc digit_val_digit_char)
  qed
qed

lemma undec_zeros: "undec (replicate k (CHR ''0'') @ s) = undec s"
proof -
  have "foldl (\<lambda>a c. 10 * a + digit_val c) 0 (replicate k (CHR ''0'')) = 0"
    by (induction k) (simp_all add: digit_val_def)
  then show ?thesis by (simp add: undec_def)
qed

lemma undec_padStart: "undec (padStart k (CHR ''0'') (dec n)) = n"
  by (simp add: padStart_def undec_zeros undec_dec)

lemma length_dec_pos: "0 < length (dec n)"
  by (subst dec.simps) simp

lemma length_dec_le: "0 < k \<Longrightarrow> n < 10 ^ k \<Longrightarrow> length (dec n) \<le> k"
proof (induction k arbitrary: n)
  case 0
  then show ?case by simp
next
  case (Suc k)
  show ?case
  proof (cases "n < 10")
    case True
    then show ?thesis by (subst dec.simps) simp
  next
    case False
    with Suc.prems have k: "0 < k" by (cases k) auto
    have "n div 10 < 10 ^ k" using Suc.prems(2) by (simp add: less_mult_imp_div_less mult.commute)
    from Suc.IH [OF k this] False show ?thesis by (subst dec.simps) simp
  qed
qed

lemma length_padStart: "length (padStart k c s) = max k (length s)"
  by (simp add: padStart_def)

lemma length_pad2: "n < 100 \<Longrightarrow> length (padStart 2 (CHR ''0'') (dec n)) = 2"
  using length_dec_le [of 2 n] length_dec_pos [of n] by (simp add: length_padStart)

lemma year_string_inj:
  assumes "year_string y1 = year_string y2"
  shows "y1 = y2"
proof -
  have len_in: "length (year_string y) = 4" if "0 \<le> y" "y \<le> 9999" for y
  proof -
    have "nat y < 10 ^ 4" using that by simp
    from length_dec_le [OF _ this] that show ?thesis
      by (simp add: year_string_def length_padStart)
  qed
  have len_out: "7 \<le> length (year_string y)" if "\<not> (0 \<le> y \<and> y \<le> 9999)" for y
    using that by (auto simp add: year_string_def length_padStart)
  have val_in: "undec (year_string y) = nat y" if "0 \<le> y" "y \<le> 9999" for y
    using that by (simp add: year_string_def undec_padStart)
  have val_out: "undec (tl (year_string y)) = nat \<bar>y\<bar>"
      "hd (year_string y) = (if y < 0 then CHR ''-'' else CHR ''+'')"
    if "\<not> (0 \<le> y \<and> y \<le> 9999)" for y
    using that by (auto simp add: year_string_def undec_padStart)
  show ?thesis
  proof (cases "0 \<le> y1 \<and> y1 \<le> 9999")
    case in1: True
    show ?thesis
    proof (cases "0 \<le> y2 \<and> y2 \<le> 9999")
      case True
      with in1 val_in [of y1] val_in [of y2] assms have "nat y1 = nat y2" by simp
      with in1 True show ?thesis by linarith
    next
      case False
      with in1 len_in [of y1] len_out [of y2] assms show ?thesis by simp
    qed
  next
    case out1: False
    show ?thesis
    proof (cases "0 \<le> y2 \<and> y2 \<le> 9999")
      case True
      with out1 len_in [of y2] len_out [of y1] assms show ?thesis by simp
    next
      case False
      have "nat \<bar>y1\<bar> = nat \<bar>y2\<bar>" "(y1 < 0) = (y2 < 0)"
        using val_out [OF out1] val_out [OF False] assms by (simp_all split: if_splits)
      then show ?thesis by linarith
    qed
  qed
qed

lemma formatDate_inj:
  assumes "formatDate t1 = formatDate t2"
  shows "Day t1 = Day t2"
proof -
  obtain y1 m1 d1 where c1: "civil_from_days (Day t1) = (y1, m1, d1)"
    by (cases "civil_from_days (Day t1)")
  obtain y2 m2 d2 where c2: "civil_from_days (Day t2) = (y2, m2, d2)"
    by (cases "civil_from_days (Day t2)")
  note f1 = civil_from_days_fields [OF c1] and f2 = civil_from_days_fields [OF c2]
  define M1 where "M1 = padStart 2 (CHR ''0'') (dec (nat m1))"
  define M2 where "M2 = padStart 2 (CHR ''0'') (dec (nat m2))"
  define D1 where "D1 = padStart 2 (CHR ''0'') (dec (nat d1))"
  define D2 where "D2 = padStart 2 (CHR ''0'') (dec (nat d2))"
  have "nat m1 < 100" "nat m2 < 100" "nat d1 < 100" "nat d2 < 100"
    using f1 f2 by linarith+
  then have len: "length M1 = 2" "length M2 = 2" "length D1 = 2" "length D2 = 2"
    unfolding M1_def M2_def D1_def D2_def by (simp_all add: length_pad2)
  define R1 where "R1 = ''-'' @ M1 @ ''-'' @ D1"
  define R2 where "R2 = ''-'' @ M2 @ ''-'' @ D2"
  have eq: "year_string y1 @ R1 = year_string y2 @ R2"
    using assms by (simp add: formatDate_def c1 c2 M1_def M2_def D1_def D2_def R1_def R2_def)
  have "length R1 = length R2"
    using len by (simp add: R1_def R2_def)
  with eq have "year_string y1 = year_string y2 \<and> R1 = R2"
    by (simp add: append_eq_append_conv)
  then have y: "year_string y1 = year_string y2"
    and r: "''-'' @ M1 @ ''-'' @ D1 = ''-'' @ M2 @ ''-'' @ D2"
    by (simp_all add: R1_def R2_def)
  from r len have "M1 = M2" "D1 = D2" by simp_all
  then have "nat m1 = nat m2" "nat d1 = nat d2"
    unfolding M1_def M2_def D1_def D2_def by (metis undec_padStart)+
  with f1 f2 have "m1 = m2" "d1 = d2" by linarith+
  with year_string_inj [OF y] f1 f2 show ?thesis by simp
qed

section \<open>The walk of add-business-days\<close>

lemma business_days_after_0: "business_days_after H t 0 = 0"
  by (simp add: business_days_after_def count_days_def)

lemma business_days_after_Suc:
  "business_days_after H t (Suc k)
     = business_days_after H t k + (if business_day H (day_after t (Suc k)) then 1 else 0)"
  by (simp add: business_days_after_def count_days_def)

lemma business_days_after_mono:
  "j \<le> k \<Longrightarrow> business_days_after H t j \<le> business_days_after H t k"
  by (induction k) (auto simp add: business_days_after_Suc le_Suc_eq)


lemma isWeekend_day_after:
  "isWeekend (day_after t k) = ((Day t + int k + 4) mod 7 = 0 \<or> (Day t + int k + 4) mod 7 = 6)"
  by (simp add: isWeekend_def getDay_def getUTCDay_def day_after_def Day_add_day Let_def)

lemma weekday_in_three:
  fixes x :: int
  shows "\<not> (x mod 7 = 0 \<or> x mod 7 = 6)
       \<or> \<not> ((x + 1) mod 7 = 0 \<or> (x + 1) mod 7 = 6)
       \<or> \<not> ((x + 2) mod 7 = 0 \<or> (x + 2) mod 7 = 6)"
  by presburger

lemma business_day_ahead:
  assumes "finite H"
  shows "\<exists>k. 1 \<le> k \<and> business_day H (day_after t k)"
proof -
  have inj: "inj (\<lambda>k. formatDate (day_after t k))"
  proof (rule injI)
    fix j k assume "formatDate (day_after t j) = formatDate (day_after t k)"
    from formatDate_inj [OF this] show "j = k"
      by (simp add: day_after_def Day_add_day)
  qed
  have "finite ((\<lambda>k. formatDate (day_after t k)) -` H)"
    using assms inj by (rule finite_vimageI)
  then obtain N where N: "\<forall>k \<in> (\<lambda>k. formatDate (day_after t k)) -` H. k < N"
    using finite_nat_set_iff_bounded by blast
  have free: "formatDate (day_after t k) \<notin> H" if "N \<le> k" for k
  proof
    assume "formatDate (day_after t k) \<in> H"
    then have "k \<in> (\<lambda>k. formatDate (day_after t k)) -` H" by simp
    with N have "k < N" by blast
    with that show False by simp
  qed
  have e: "Day t + int (Suc N) + 4 = Day t + int N + 5"
    "Day t + int (Suc (Suc N)) + 4 = Day t + int N + 5 + 1"
    "Day t + int (Suc (Suc (Suc N))) + 4 = Day t + int N + 5 + 2"
    by simp_all
  have "\<not> isWeekend (day_after t (Suc N)) \<or> \<not> isWeekend (day_after t (Suc (Suc N)))
          \<or> \<not> isWeekend (day_after t (Suc (Suc (Suc N))))"
    unfolding isWeekend_day_after e by (rule weekday_in_three)
  then consider "\<not> isWeekend (day_after t (Suc N))"
    | "\<not> isWeekend (day_after t (Suc (Suc N)))"
    | "\<not> isWeekend (day_after t (Suc (Suc (Suc N))))" by blast
  then show ?thesis
  proof cases
    case 1
    with free [of "Suc N"] show ?thesis
      by (intro exI [of _ "Suc N"]) (simp add: business_day_def)
  next
    case 2
    with free [of "Suc (Suc N)"] show ?thesis
      by (intro exI [of _ "Suc (Suc N)"]) (simp add: business_day_def)
  next
    case 3
    with free [of "Suc (Suc (Suc N))"] show ?thesis
      by (intro exI [of _ "Suc (Suc (Suc N))"]) (simp add: business_day_def)
  qed
qed

lemma day_after_add: "day_after (day_after t j) k = day_after t (j + k)"
  by (simp add: day_after_def algebra_simps)

lemma business_days_after_unbounded:
  assumes "finite H"
  shows "\<exists>k. int m \<le> business_days_after H t k"
proof (induction m)
  case 0
  show ?case by (rule exI [of _ 0]) (simp add: business_days_after_0)
next
  case (Suc m)
  then obtain k where k: "int m \<le> business_days_after H t k" by blast
  from business_day_ahead [OF assms, of "day_after t k"]
  obtain j where j: "1 \<le> j" "business_day H (day_after t (k + j))"
    by (auto simp add: day_after_add)
  from j(1) obtain i where i: "k + j = Suc i" "k \<le> i" by (cases j) auto
  have "business_days_after H t (Suc i) = business_days_after H t i + 1"
    using j(2) i(1) by (simp add: business_days_after_Suc)
  with business_days_after_mono [OF i(2), of H t] k
  show ?case by (intro exI [of _ "Suc i"]) simp
qed

lemma add_business_days_loop_run:
  assumes "\<forall>j<k. added + business_days_after H t j < n"
  shows "add_business_days_loop H n t added moved
           = add_business_days_loop H n (day_after t k)
               (added + business_days_after H t k) (moved + int k)"
  using assms
proof (induction k)
  case 0
  show ?case by (simp add: day_after_def business_days_after_0)
next
  case (Suc k)
  then have 1: "add_business_days_loop H n t added moved
           = add_business_days_loop H n (day_after t k)
               (added + business_days_after H t k) (moved + int k)"
    and 2: "added + business_days_after H t k < n"
    by simp_all
  have d: "day_after t k + msPerDay = day_after t (Suc k)"
    by (simp add: day_after_def algebra_simps)
  have step: "add_business_days_loop H n (day_after t k) a m
           = add_business_days_loop H n (day_after t (Suc k))
               (if business_day H (day_after t (Suc k)) then a + 1 else a) (m + 1)"
    if "a < n" for a m
    by (subst add_business_days_loop.simps) (simp add: that Let_def next_day d business_day_def)
  show ?case
    unfolding 1 step [OF 2] by (simp add: business_days_after_Suc ac_simps)
qed

lemma add_business_days_loop_result:
  assumes "finite H" and "added < n"
  shows "\<exists>k. 1 \<le> k
           \<and> add_business_days_loop H n t added moved = Some (day_after t k, moved + int k)
           \<and> business_day H (day_after t k)
           \<and> added + business_days_after H t k = n"
proof -
  define P where "P k = (n \<le> added + business_days_after H t k)" for k
  obtain k0 where "int (nat (n - added)) \<le> business_days_after H t k0"
    using business_days_after_unbounded [OF assms(1)] by blast
  then have ex: "P k0" using assms(2) by (simp add: P_def)
  define k where "k = (LEAST k. P k)"
  have Pk: "P k" unfolding k_def using ex by (rule LeastI)
  have before: "\<not> P j" if "j < k" for j
    using that not_less_Least unfolding k_def by blast
  have "k \<noteq> 0" using Pk assms(2) by (auto simp add: P_def business_days_after_0 intro: ccontr)
  then obtain i where i: "k = Suc i" by (cases k) auto
  have lt: "added + business_days_after H t i < n"
    using before [of i] i by (simp add: P_def)
  have ge: "n \<le> added + business_days_after H t (Suc i)"
    using Pk i by (simp add: P_def)
  from lt ge have bd: "business_day H (day_after t (Suc i))"
    and eq: "added + business_days_after H t (Suc i) = n"
    by (auto simp add: business_days_after_Suc split: if_splits)
  have "\<forall>j<k. added + business_days_after H t j < n"
  proof (intro allI impI)
    fix j assume "j < k"
    from before [OF this] show "added + business_days_after H t j < n"
      by (simp add: P_def)
  qed
  then have run: "add_business_days_loop H n t added moved
           = add_business_days_loop H n (day_after t k)
               (added + business_days_after H t k) (moved + int k)"
    by (rule add_business_days_loop_run)
  have "add_business_days_loop H n t added moved = Some (day_after t k, moved + int k)"
    unfolding run i eq by (subst add_business_days_loop.simps) simp
  with bd eq i show ?thesis by (intro exI [of _ k]) simp
qed

subsection \<open>The holiday set of the walk\<close>




subsection \<open>The handler\<close>


lemma add_business_days_loop_eval:
  "added < n \<Longrightarrow>
   add_business_days_loop H n current added moved
     = add_business_days_loop H n (current + msPerDay)
         (if business_day H (current + msPerDay) then added + 1 else added) (moved + 1)"
  "\<not> added < n \<Longrightarrow> add_business_days_loop H n current added moved = Some (current, moved)"
  by (subst add_business_days_loop.simps, simp add: Let_def next_day business_day_def)+



lemma first_week_of_july_2024:
  "formatDate 1720051200000 = ''2024-07-04''" "formatDate 1720137600000 = ''2024-07-05''"
  "formatDate 1720224000000 = ''2024-07-06''" "formatDate 1720310400000 = ''2024-07-07''"
  "formatDate 1720396800000 = ''2024-07-08''" "formatDate 1719964800000 = ''2024-07-03''"
  "\<not> isWeekend 1719964800000" "\<not> isWeekend 1720051200000" "\<not> isWeekend 1720137600000"
  "isWeekend 1720224000000" "isWeekend 1720310400000" "\<not> isWeekend 1720396800000"
  by (simp_all add: date_eval)



text \<open>
  C10. For a finite holiday set and a number of days from 1 to 365, the loop of
  add-business-days ends: it returns the day it reached and the number of calendar
  days it moved.
\<close>

theorem add_business_days_loop_terminates:
  assumes "finite holidayDates"
    and "1 \<le> n" and "n \<le> 365"
  shows "\<exists>current totalDaysMoved.
           add_business_days_loop holidayDates n start 0 0 = Some (current, totalDaysMoved)"
proof -
  have "0 < n" using assms(2) by simp
  from add_business_days_loop_result [OF assms(1) this, of start 0]
  show ?thesis by blast
qed

theorem add_business_days_loop_terminates_witness:
  "finite {''2024-07-04'', ''2024-12-25''}
   \<and> (1 :: int) \<le> 1 \<and> (1 :: int) \<le> 365
   \<and> add_business_days_loop {''2024-07-04'', ''2024-12-25''} 1 1719964800000 0 0
        = Some (1720137600000, 2)
   \<and> (\<exists>current totalDaysMoved.
          add_business_days_loop {''2024-07-04'', ''2024-12-25''} 1 1719964800000 0 0
            = Some (current, totalDaysMoved))"
proof -
  have fin: "finite {''2024-07-04'', ''2024-12-25''}" by simp
  note f = first_week_of_july_2024
  have loop: "add_business_days_loop {''2024-07-04'', ''2024-12-25''} 1 1719964800000 0 0
                = Some (1720137600000, 2)"
    by (simp add: add_business_days_loop_eval business_day_def f msPerDay_def)
  from add_business_days_loop_terminates [OF fin, of 1 1719964800000] loop
  show ?thesis by simp
qed

section \<open>Walking back\<close>













section \<open>The next holiday\<close>

lemma ceil_div_days:
  assumes "new_Date x = Some a" "new_Date y = Some b"
  shows "ceil_div (getTime a - getTime b) msPerDay = Day a - Day b"
proof -
  have "a = Day a * msPerDay" "b = Day b * msPerDay"
    using assms by (simp_all add: new_Date_midnight)
  then have "- (a - b) = (Day b - Day a) * msPerDay"
    by (metis left_diff_distrib minus_diff_eq)
  then show ?thesis
    by (simp add: ceil_div_def getTime_def msPerDay_def)
qed

lemma sort_key_head:
  assumes "sort_key f xs = h # rest"
  shows "h \<in> set xs \<and> (\<forall>x \<in> set xs. f h \<le> f x)"
proof -
  have "set (h # rest) = set xs" using assms by (metis set_sort)
  moreover have "sorted (map f (h # rest))" using assms by (metis sorted_sort_key)
  ultimately show ?thesis by auto
qed

text \<open>
  C5, as stated, fails on daysUntil: from 2024-12-26 the next holiday of the United
  States is 2025-01-01, and daysUntil is 6, the difference of the two day numbers; the
  count of calendar days from the one to the other, both included, is 7.
\<close>

theorem next_holiday_days_until_counterexample:
  "next_holiday sample_nager 0 after_christmas =
     Inr \<lparr>country = ''US'', today = ''2024-12-26'',
          nextHoliday = Some \<lparr>date = ''2025-01-01'', name = ''New Year's Day'',
            localName = ''New Year's Day'', types = [''Public''], daysUntil = Some 6\<rparr>\<rparr>
   \<and> parseDate ''2024-12-26'' = Some 1735171200000
   \<and> parseDate ''2025-01-01'' = Some 1735689600000
   \<and> int (length (days_of_range 1735171200000 1735689600000)) = 7"
proof -
  have 1: "next_holiday sample_nager 0 after_christmas =
     Inr \<lparr>country = ''US'', today = ''2024-12-26'',
          nextHoliday = Some \<lparr>date = ''2025-01-01'', name = ''New Year's Day'',
            localName = ''New Year's Day'', types = [''Public''], daysUntil = Some 6\<rparr>\<rparr>"
    by code_simp
  have 2: "parseDate ''2024-12-26'' = Some 1735171200000"
    "parseDate ''2025-01-01'' = Some 1735689600000"
    by (simp_all add: parse_eval)
  have 3: "int (length (days_of_range 1735171200000 1735689600000)) = 7"
    by (simp add: length_days_of_range msPerDay_def)
  from 1 2 3 show ?thesis by simp
qed

text \<open>
  C5, amended. When the provider serves the year written in fromDate and the year after
  it, next-holiday looks at the holidays of the two years whose date is strictly greater
  than fromDate. When there is none, nextHoliday is null. Otherwise it returns one of
  them whose date is the least (the first after the ascending sort), with daysUntil the
  number of days from fromDate to it: the day number of the holiday minus that of
  fromDate, which is 6 from 2024-12-26 to 2025-01-01.
\<close>

theorem next_holiday_first_upcoming:
  assumes "parseInt_year (next_holiday_today now input) = Some y"
    and "nager (toUpperCase (country input)) y = Some currentYearHolidays"
    and "nager (toUpperCase (country input)) (y + 1) = Some nextYearHolidays"
  shows "(filter (\<lambda>h. next_holiday_today now input < date h)
            (currentYearHolidays @ nextYearHolidays) = [] \<longrightarrow>
          next_holiday nager now input =
            Inr \<lparr>country = toUpperCase (country input),
                 today = next_holiday_today now input, nextHoliday = None\<rparr>)
       \<and> (filter (\<lambda>h. next_holiday_today now input < date h)
            (currentYearHolidays @ nextYearHolidays) \<noteq> [] \<longrightarrow>
          (\<exists>h \<in> set (currentYearHolidays @ nextYearHolidays).
             next_holiday_today now input < date h
             \<and> (\<forall>h' \<in> set (currentYearHolidays @ nextYearHolidays).
                   next_holiday_today now input < date h' \<longrightarrow> date h \<le> date h')
             \<and> next_holiday nager now input =
                 Inr \<lparr>country = toUpperCase (country input),
                      today = next_holiday_today now input,
                      nextHoliday = Some
                        \<lparr>date = date h, name = name h, localName = localName h,
                         types = types h,
                         daysUntil =
                           (case (parseDate (date h),
                                  parseDate (next_holiday_today now input)) of
                              (Some a, Some b) \<Rightarrow> Some (Day a - Day b)
                            | _ \<Rightarrow> None)\<rparr>\<rparr>))"
proof -
  define tday where "tday = next_holiday_today now input"
  define future where "future = filter (\<lambda>h. tday < date h) (currentYearHolidays @ nextYearHolidays)"
  have run: "next_holiday nager now input =
      (case sort_key date future of
         [] \<Rightarrow> Inr \<lparr>country = toUpperCase (country input), today = tday, nextHoliday = None\<rparr>
       | h # _ \<Rightarrow>
           Inr \<lparr>country = toUpperCase (country input), today = tday,
                nextHoliday = Some
                  \<lparr>date = date h, name = name h, localName = localName h, types = types h,
                   daysUntil =
                     (case (parseDate (date h), parseDate tday) of
                        (Some a, Some b) \<Rightarrow> Some (ceil_div (getTime a - getTime b) msPerDay)
                      | _ \<Rightarrow> None)\<rparr>\<rparr>)"
    using assms
    by (cases "sort_key date future")
       (simp_all add: next_holiday_def Let_def getHolidays_def
          del: filter_append flip: tday_def future_def)
  have none: "future = [] \<longrightarrow> next_holiday nager now input =
            Inr \<lparr>country = toUpperCase (country input), today = tday, nextHoliday = None\<rparr>"
    by (simp add: run)
  have some: "future \<noteq> [] \<longrightarrow>
          (\<exists>h \<in> set (currentYearHolidays @ nextYearHolidays).
             tday < date h
             \<and> (\<forall>h' \<in> set (currentYearHolidays @ nextYearHolidays).
                   tday < date h' \<longrightarrow> date h \<le> date h')
             \<and> next_holiday nager now input =
                 Inr \<lparr>country = toUpperCase (country input), today = tday,
                      nextHoliday = Some
                        \<lparr>date = date h, name = name h, localName = localName h,
                         types = types h,
                         daysUntil =
                           (case (parseDate (date h), parseDate tday) of
                              (Some a, Some b) \<Rightarrow> Some (Day a - Day b)
                            | _ \<Rightarrow> None)\<rparr>\<rparr>)"
  proof
    assume "future \<noteq> []"
    then have "sort_key date future \<noteq> []" by (metis length_0_conv length_sort)
    then obtain h rest where hr: "sort_key date future = h # rest"
      by (cases "sort_key date future") auto
    from sort_key_head [OF hr] have h: "h \<in> set future" "\<forall>x \<in> set future. date h \<le> date x"
      by simp_all
    show "\<exists>h \<in> set (currentYearHolidays @ nextYearHolidays).
             tday < date h
             \<and> (\<forall>h' \<in> set (currentYearHolidays @ nextYearHolidays).
                   tday < date h' \<longrightarrow> date h \<le> date h')
             \<and> next_holiday nager now input =
                 Inr \<lparr>country = toUpperCase (country input), today = tday,
                      nextHoliday = Some
                        \<lparr>date = date h, name = name h, localName = localName h,
                         types = types h,
                         daysUntil =
                           (case (parseDate (date h), parseDate tday) of
                              (Some a, Some b) \<Rightarrow> Some (Day a - Day b)
                            | _ \<Rightarrow> None)\<rparr>\<rparr>"
    proof (rule bexI [of _ h])
      show "h \<in> set (currentYearHolidays @ nextYearHolidays)"
        using h(1) by (auto simp add: future_def)
      have a: "tday < date h" using h(1) by (auto simp add: future_def)
      have b: "\<forall>h' \<in> set (currentYearHolidays @ nextYearHolidays).
                 tday < date h' \<longrightarrow> date h \<le> date h'"
        using h(2) by (auto simp add: future_def)
      have c: "next_holiday nager now input =
                 Inr \<lparr>country = toUpperCase (country input), today = tday,
                      nextHoliday = Some
                        \<lparr>date = date h, name = name h, localName = localName h,
                         types = types h,
                         daysUntil =
                           (case (parseDate (date h), parseDate tday) of
                              (Some a, Some b) \<Rightarrow> Some (Day a - Day b)
                            | _ \<Rightarrow> None)\<rparr>\<rparr>"
        unfolding run hr
        by (simp add: parseDate_def ceil_div_days split: option.splits)
      from a b c
      show "tday < date h
             \<and> (\<forall>h' \<in> set (currentYearHolidays @ nextYearHolidays).
                   tday < date h' \<longrightarrow> date h \<le> date h')
             \<and> next_holiday nager now input =
                 Inr \<lparr>country = toUpperCase (country input), today = tday,
                      nextHoliday = Some
                        \<lparr>date = date h, name = name h, localName = localName h,
                         types = types h,
                         daysUntil =
                           (case (parseDate (date h), parseDate tday) of
                              (Some a, Some b) \<Rightarrow> Some (Day a - Day b)
                            | _ \<Rightarrow> None)\<rparr>\<rparr>"
        by blast
    qed
  qed
  from none some show ?thesis unfolding tday_def future_def by blast
qed

theorem next_holiday_first_upcoming_witness:
  "parseInt_year (next_holiday_today 0 after_christmas) = Some 2024
   \<and> sample_nager (toUpperCase (country after_christmas)) 2024 =
       Some [holiday ''2024-01-01'' ''New Year's Day'',
             holiday ''2024-07-04'' ''Independence Day'',
             holiday ''2024-12-25'' ''Christmas Day'']
   \<and> sample_nager (toUpperCase (country after_christmas)) (2024 + 1) =
       Some [holiday ''2025-01-01'' ''New Year's Day'',
             holiday ''2025-10-13'' ''Columbus Day'',
             holiday ''2025-10-13'' ''Indigenous Peoples' Day'',
             holiday ''2025-12-25'' ''Christmas Day'']
   \<and> next_holiday sample_nager 0 after_christmas =
       Inr \<lparr>country = ''US'', today = ''2024-12-26'',
            nextHoliday = Some \<lparr>date = ''2025-01-01'', name = ''New Year's Day'',
              localName = ''New Year's Day'', types = [''Public''], daysUntil = Some 6\<rparr>\<rparr>
   \<and> (\<exists>h \<in> set ([holiday ''2024-01-01'' ''New Year's Day'',
                    holiday ''2024-07-04'' ''Independence Day'',
                    holiday ''2024-12-25'' ''Christmas Day'']
                 @ [holiday ''2025-01-01'' ''New Year's Day'',
                    holiday ''2025-10-13'' ''Columbus Day'',
                    holiday ''2025-10-13'' ''Indigenous Peoples' Day'',
                    holiday ''2025-12-25'' ''Christmas Day'']).
          next_holiday_today 0 after_christmas < date h
          \<and> next_holiday sample_nager 0 after_christmas =
              Inr \<lparr>country = toUpperCase (country after_christmas),
                   today = next_holiday_today 0 after_christmas,
                   nextHoliday = Some
                     \<lparr>date = date h, name = name h, localName = localName h,
                      types = types h,
                      daysUntil =
                        (case (parseDate (date h),
                               parseDate (next_holiday_today 0 after_christmas)) of
                           (Some a, Some b) \<Rightarrow> Some (Day a - Day b)
                         | _ \<Rightarrow> None)\<rparr>\<rparr>)"
proof -
  have y: "parseInt_year (next_holiday_today 0 after_christmas) = Some 2024" by code_simp
  have c: "sample_nager (toUpperCase (country after_christmas)) 2024 =
       Some [holiday ''2024-01-01'' ''New Year's Day'',
             holiday ''2024-07-04'' ''Independence Day'',
             holiday ''2024-12-25'' ''Christmas Day'']" by code_simp
  have n: "sample_nager (toUpperCase (country after_christmas)) (2024 + 1) =
       Some [holiday ''2025-01-01'' ''New Year's Day'',
             holiday ''2025-10-13'' ''Columbus Day'',
             holiday ''2025-10-13'' ''Indigenous Peoples' Day'',
             holiday ''2025-12-25'' ''Christmas Day'']" by code_simp
  have run: "next_holiday sample_nager 0 after_christmas =
       Inr \<lparr>country = ''US'', today = ''2024-12-26'',
            nextHoliday = Some \<lparr>date = ''2025-01-01'', name = ''New Year's Day'',
              localName = ''New Year's Day'', types = [''Public''], daysUntil = Some 6\<rparr>\<rparr>"
    by code_simp
  have ne: "filter (\<lambda>h. next_holiday_today 0 after_christmas < date h)
             ([holiday ''2024-01-01'' ''New Year's Day'',
               holiday ''2024-07-04'' ''Independence Day'',
               holiday ''2024-12-25'' ''Christmas Day'']
              @ [holiday ''2025-01-01'' ''New Year's Day'',
                 holiday ''2025-10-13'' ''Columbus Day'',
                 holiday ''2025-10-13'' ''Indigenous Peoples' Day'',
                 holiday ''2025-12-25'' ''Christmas Day'']) \<noteq> []"
    by code_simp
  from next_holiday_first_upcoming
         [where now = 0 and input = after_christmas and nager = sample_nager, OF y c n]
       ne y c n run
  show ?thesis by blast
qed

section \<open>Shared holiday dates\<close>

lemma date_count_count_date:
  "date_count (count_date d acc) d' = date_count acc d' + (if d = d' then 1 else 0)"
  by (simp add: date_count_def count_date_def update_conv')

lemma date_count_fold:
  "date_count (fold count_date ds acc) d = date_count acc d + count_list ds d"
  by (induction ds arbitrary: acc) (auto simp add: date_count_count_date)

lemma distinct_fold_count_date:
  "distinct (map fst acc) \<Longrightarrow> distinct (map fst (fold count_date ds acc))"
  by (induction ds arbitrary: acc) (simp_all add: count_date_def distinct_update)

text \<open>
  What compare-countries computes: the dates that occur more than once in the
  concatenation of the countries' lists, in ascending order, each once.
\<close>

lemma shared_dates_occurrences:
  "set (shared_dates rs) = {d. 1 < count_list (concat (map (\<lambda>r. map fst (holidays r)) rs)) d}"
  and "sorted (shared_dates rs)" and "distinct (shared_dates rs)"
proof -
  define allDates where "allDates = concat (map (\<lambda>r. map fst (holidays r)) rs)"
  define dateCounts where "dateCounts = fold count_date allDates []"
  have sd: "shared_dates rs = sort (map fst (filter (\<lambda>(d, count). count > 1) dateCounts))"
    by (simp add: shared_dates_def Let_def allDates_def dateCounts_def)
  have dist: "distinct (map fst dateCounts)"
    unfolding dateCounts_def by (rule distinct_fold_count_date) simp
  have "date_count [] d = 0" for d by (simp add: date_count_def)
  then have cnt: "date_count dateCounts d = count_list allDates d" for d
    unfolding dateCounts_def by (simp add: date_count_fold)
  have "d \<in> set (shared_dates rs) \<longleftrightarrow> 1 < count_list allDates d" for d
  proof
    assume "d \<in> set (shared_dates rs)"
    then obtain c where "(d, c) \<in> set dateCounts" "1 < c" by (auto simp add: sd)
    then have "map_of dateCounts d = Some c" using dist by simp
    then have "date_count dateCounts d = c" by (simp add: date_count_def)
    with \<open>1 < c\<close> cnt show "1 < count_list allDates d" by simp
  next
    assume "1 < count_list allDates d"
    then have c: "1 < date_count dateCounts d" by (simp add: cnt)
    then obtain c' where "map_of dateCounts d = Some c'" "1 < c'"
      by (auto simp add: date_count_def split: option.splits)
    then have "(d, c') \<in> set dateCounts" by (simp add: map_of_SomeD)
    with \<open>1 < c'\<close> show "d \<in> set (shared_dates rs)" by (force simp add: sd)
  qed
  then show "set (shared_dates rs)
               = {d. 1 < count_list (concat (map (\<lambda>r. map fst (holidays r)) rs)) d}"
    by (auto simp add: allDates_def)
  show "sorted (shared_dates rs)" by (simp add: sd)
  show "distinct (shared_dates rs)"
    using dist by (simp add: sd distinct_map_filter)
qed

lemma count_list_distinct:
  "distinct xs \<Longrightarrow> count_list xs d = (if d \<in> set xs then 1 else 0)"
  by (induction xs) auto

text \<open>
  When no country lists a date twice, these are the dates that more than one of the
  countries' lists has.
\<close>

lemma shared_dates_without_repeats:
  assumes "\<forall>r \<in> set rs. distinct (map fst (holidays r))"
  shows "set (shared_dates rs)
           = {d. 1 < length (filter (\<lambda>r. d \<in> set (map fst (holidays r))) rs)}"
proof -
  have "count_list (concat (map (\<lambda>r. map fst (holidays r)) rs)) d
          = length (filter (\<lambda>r. d \<in> set (map fst (holidays r))) rs)" for d
    using assms by (induction rs) (simp_all add: count_list_distinct)
  then show ?thesis by (simp add: shared_dates_occurrences(1))
qed

text \<open>
  C6 fails on the code: a date that one country lists twice counts twice. For the
  United States and Great Britain in 2025, the 13th of October is among the shared
  dates, though only the list of the United States has it (as Columbus Day and as
  Indigenous Peoples' Day).
\<close>

theorem compare_countries_counts_one_country_twice:
  "map_sum id sharedHolidayDates (compare_countries sample_nager us_and_gb_2025)
     = Inr [''2025-01-01'', ''2025-10-13'', ''2025-12-25'']
   \<and> ''2025-10-13'' \<in> holiday_dates sample_nager ''US'' 2025
   \<and> ''2025-10-13'' \<notin> holiday_dates sample_nager ''GB'' 2025"
proof -
  have 1: "map_sum id sharedHolidayDates (compare_countries sample_nager us_and_gb_2025)
     = Inr [''2025-01-01'', ''2025-10-13'', ''2025-12-25'']"
    by code_simp
  have 2: "holiday_dates sample_nager ''US'' 2025 = {''2025-01-01'', ''2025-10-13'', ''2025-12-25''}"
    "holiday_dates sample_nager ''GB'' 2025
       = {''2025-01-01'', ''2025-04-18'', ''2025-12-25'', ''2025-12-26''}"
    by code_simp+
  show ?thesis unfolding 2 using 1 by simp
qed

end
